theory Spec2Isabelle
  imports Main "HOL-Library.AList" "HOL-Library.Multiset"
begin

section \<open>The task store of \<^verbatim>\<open>src/db_schema.py\<close>\<close>

text \<open>
  \<^verbatim>\<open>DatabaseManager\<close> keeps three SQLite tables: \<^verbatim>\<open>tasks\<close>, \<^verbatim>\<open>task_states\<close> and
  \<^verbatim>\<open>task_data\<close>. The embedding keeps each table as the list of its rows in insertion
  order, and each public method as a function from the database before the call to the
  value returned (or the exception raised) and the database after the call.

  Conventions of the embedding:
  \<^item> A timestamp is the text \<^verbatim>\<open>%Y-%m-%d %H:%M:%S\<close> in the source; here it is the number of
    seconds that SQLite's \<^verbatim>\<open>strftime('%s', _)\<close> reads from that text, an \<open>int\<close>. The clock
    reading \<^verbatim>\<open>now\<close> of a call is a parameter of the operation.
  \<^item> The columns holding JSON text hold the decoded value: \<^verbatim>\<open>json.loads\<close> after
    \<^verbatim>\<open>json.dumps\<close> is taken to be the identity.
  \<^item> A Python dictionary is an association list in insertion order; \<open>AList.update\<close> is
    item assignment (an existing key keeps its place, a new key goes last).
  \<^item> The \<^verbatim>\<open>results\<close> entry of the creation input and the \<^verbatim>\<open>error\<close> arguments are
    dictionaries, as their type annotations say.
  \<^item> The storage layer can raise at any of its calls. The parameter \<open>fault\<close> of an
    operation says which call raises: \<open>None\<close> for a run without fault, \<open>Some k\<close> when
    the call number \<open>k\<close> of the run raises (\<open>0\<close> is \<^verbatim>\<open>sqlite3.connect\<close>, the statements
    and the commit follow in the order in which the run executes them). A number that the
    run never reaches raises nothing. A call that faults raises as it starts, before its
    parameters are bound and before its statement is executed.
  \<^item> The parameters of a statement are bound by the \<^verbatim>\<open>sqlite3\<close> module, which raises on a
    value that it cannot bind; the arguments that the type annotations of the source give
    as \<^verbatim>\<open>str\<close> are strings here and always bind.
\<close>

subsection \<open>Python values\<close>

datatype pyval =
    PNone
  | PBool bool
  | PInt int
  | PStr string
  | PTime int
  | PList "pyval list"
  | PDict "(string \<times> pyval) list"

text \<open>Truth value of a Python object, as \<^verbatim>\<open>if x:\<close> reads it.\<close>

fun truthy :: "pyval \<Rightarrow> bool" where
  "truthy PNone = False"
| "truthy (PBool b) = b"
| "truthy (PInt i) = (i \<noteq> 0)"
| "truthy (PStr s) = (s \<noteq> [])"
| "truthy (PTime t) = True"
| "truthy (PList xs) = (xs \<noteq> [])"
| "truthy (PDict kvs) = (kvs \<noteq> [])"

text \<open>\<^verbatim>\<open>if s:\<close> for an optional string and \<^verbatim>\<open>if d:\<close> for an optional dictionary.\<close>

definition truthy_str :: "string option \<Rightarrow> bool" where
  "truthy_str s = (case s of None \<Rightarrow> False | Some v \<Rightarrow> v \<noteq> [])"

definition truthy_dict :: "(string \<times> pyval) list option \<Rightarrow> bool" where
  "truthy_dict d = (case d of None \<Rightarrow> False | Some kvs \<Rightarrow> kvs \<noteq> [])"

text \<open>\<^verbatim>\<open>d.get(k)\<close>: the value under the key, \<^verbatim>\<open>None\<close> when the key is absent.\<close>

definition dict_get :: "(string \<times> pyval) list \<Rightarrow> string \<Rightarrow> pyval" where
  "dict_get d k = (case map_of d k of None \<Rightarrow> PNone | Some v \<Rightarrow> v)"

definition opt_default :: "'a option \<Rightarrow> 'a \<Rightarrow> 'a" where
  "opt_default x d = (case x of None \<Rightarrow> d | Some v \<Rightarrow> v)"

subsection \<open>Rows and the database\<close>

record task_row =
  t_task_id :: string
  t_workflow_id :: string
  t_workflow_name :: string
  t_workflow_version :: string
  t_current_state :: string
  t_completion_state :: string
  t_created_at :: int
  t_updated_at :: int
  t_creator_id :: string
  t_priority :: string
  t_max_retries :: int
  t_retry_count :: int
  t_timeout_seconds :: int
  t_is_complete :: bool
  t_has_error :: bool

record state_row =
  s_id :: nat
  s_task_id :: string
  s_state_name :: string
  s_entered_at :: int
  s_exited_at :: "int option"
  s_duration_seconds :: "int option"
  s_result :: "string option"
  s_has_error :: bool
  s_error_message :: pyval

record payload_row =
  d_task_id :: string
  d_prompt :: string
  d_context :: string
  d_parameters :: pyval
  d_results :: "(string \<times> pyval) list"
  d_next_states :: pyval
  d_error_details :: "(string \<times> pyval) list option"

text \<open>\<open>state_seq\<close> is the \<^verbatim>\<open>AUTOINCREMENT\<close> counter of \<^verbatim>\<open>task_states.id\<close>.\<close>

record db =
  tasks :: "task_row list"
  task_states :: "state_row list"
  task_data :: "payload_row list"
  state_seq :: nat

text \<open>The database that \<^verbatim>\<open>_create_tables\<close> leaves on a fresh file.\<close>

definition empty_db :: db where
  "empty_db = \<lparr>tasks = [], task_states = [], task_data = [], state_seq = 0\<rparr>"

datatype exn =
    StorageFault | IntegrityError | UnboundLocalError | TypeError | OverflowError | BindingError

subsection \<open>Binding a Python value to a parameter of a statement\<close>

text \<open>
  The \<^verbatim>\<open>sqlite3\<close> module binds \<^verbatim>\<open>None\<close>, \<^verbatim>\<open>int\<close> and \<^verbatim>\<open>str\<close> values. An \<^verbatim>\<open>int\<close>
  outside the signed 64-bit range raises \<^verbatim>\<open>OverflowError\<close>; a list or a dictionary raises
  the module's error for a parameter of an unsupported type (\<open>BindingError\<close> here). A
  \<^verbatim>\<open>bool\<close> is an \<^verbatim>\<open>int\<close> and is bound as \<open>0\<close> or \<open>1\<close>. A column of \<^verbatim>\<open>TEXT\<close> affinity
  stores an integer as its decimal text.
\<close>

definition int64 :: "int \<Rightarrow> bool" where
  "int64 i = (- (2 ^ 63) \<le> i \<and> i < 2 ^ 63)"

fun dec_nat :: "nat \<Rightarrow> string" where
  "dec_nat n =
     (if n < 10 then [''0123456789'' ! n]
      else dec_nat (n div 10) @ [''0123456789'' ! (n mod 10)])"

declare dec_nat.simps [simp del]

definition dec_int :: "int \<Rightarrow> string" where
  "dec_int i = (if i < 0 then CHR ''-'' # dec_nat (nat (- i)) else dec_nat (nat i))"

text \<open>The value that a \<^verbatim>\<open>TEXT\<close> column holds after a Python value was bound to it.\<close>

fun bind_text :: "pyval \<Rightarrow> exn + pyval" where
  "bind_text PNone = Inr PNone"
| "bind_text (PBool b) = Inr (PStr (if b then ''1'' else ''0''))"
| "bind_text (PInt i) = (if int64 i then Inr (PStr (dec_int i)) else Inl OverflowError)"
| "bind_text (PStr s) = Inr (PStr s)"
| "bind_text (PTime t) = Inr (PTime t)"
| "bind_text (PList xs) = Inl BindingError"
| "bind_text (PDict kvs) = Inl BindingError"

subsection \<open>Queries shared by the operations\<close>

definition find_task :: "db \<Rightarrow> string \<Rightarrow> task_row option" where
  "find_task d tid = find (\<lambda>t. t_task_id t = tid) (tasks d)"

definition find_payload :: "db \<Rightarrow> string \<Rightarrow> payload_row option" where
  "find_payload d tid = find (\<lambda>p. d_task_id p = tid) (task_data d)"

definition history :: "db \<Rightarrow> string \<Rightarrow> state_row list" where
  "history d tid = filter (\<lambda>r. s_task_id r = tid) (task_states d)"

definition open_events :: "db \<Rightarrow> string \<Rightarrow> state_row list" where
  "open_events d tid =
     filter (\<lambda>r. s_task_id r = tid \<and> s_exited_at r = None) (task_states d)"

subsection \<open>\<^verbatim>\<open>create_task\<close>\<close>

text \<open>
  The creation input \<^verbatim>\<open>task_data\<close> with its nested dictionaries \<^verbatim>\<open>workflow\<close>,
  \<^verbatim>\<open>metadata\<close>, \<^verbatim>\<open>data\<close> and \<^verbatim>\<open>error\<close> flattened; \<open>None\<close> is a missing key.
\<close>

record task_input =
  i_task_id :: "string option"
  i_workflow_id :: "string option"
  i_state :: "string option"
  i_wf_name :: "string option"
  i_wf_version :: "string option"
  i_wf_completion_state :: "string option"
  i_wf_next_states :: "pyval option"
  i_creator_id :: "string option"
  i_priority :: "string option"
  i_max_retries :: "int option"
  i_timeout_seconds :: "int option"
  i_prompt :: "string option"
  i_context :: "string option"
  i_parameters :: "pyval option"
  i_results :: "(string \<times> pyval) list option"
  i_error :: "(string \<times> pyval) list option"

definition new_task_row :: "int \<Rightarrow> string \<Rightarrow> string \<Rightarrow> string \<Rightarrow> task_input \<Rightarrow> task_row" where
  "new_task_row now tid wid st inp =
     \<lparr>t_task_id = tid,
      t_workflow_id = wid,
      t_workflow_name = opt_default (i_wf_name inp) ''unknown'',
      t_workflow_version = opt_default (i_wf_version inp) ''1.0'',
      t_current_state = st,
      t_completion_state = opt_default (i_wf_completion_state inp) ''completion'',
      t_created_at = now,
      t_updated_at = now,
      t_creator_id = opt_default (i_creator_id inp) ''system'',
      t_priority = opt_default (i_priority inp) ''normal'',
      t_max_retries = opt_default (i_max_retries inp) 3,
      t_retry_count = 0,
      t_timeout_seconds = opt_default (i_timeout_seconds inp) 120,
      t_is_complete = False,
      t_has_error = False\<rparr>"

definition initial_state_row :: "nat \<Rightarrow> int \<Rightarrow> string \<Rightarrow> string \<Rightarrow> state_row" where
  "initial_state_row n now tid st =
     \<lparr>s_id = n, s_task_id = tid, s_state_name = st, s_entered_at = now,
      s_exited_at = None, s_duration_seconds = None, s_result = None,
      s_has_error = False, s_error_message = PNone\<rparr>"

definition new_payload_row :: "string \<Rightarrow> task_input \<Rightarrow> payload_row" where
  "new_payload_row tid inp =
     \<lparr>d_task_id = tid,
      d_prompt = opt_default (i_prompt inp) [],
      d_context = opt_default (i_context inp) [],
      d_parameters = opt_default (i_parameters inp) (PDict []),
      d_results = opt_default (i_results inp) [],
      d_next_states = opt_default (i_wf_next_states inp) (PList []),
      d_error_details =
        (let error = opt_default (i_error inp) []
         in if error \<noteq> [] \<and> truthy (dict_get error ''has_error'') then Some error else None)\<rparr>"

text \<open>
  Storage calls of a run: 0 connect, 1 insert into \<^verbatim>\<open>tasks\<close>, 2 insert into
  \<^verbatim>\<open>task_states\<close>, 3 insert into \<^verbatim>\<open>task_data\<close>, 4 commit. The first insert binds
  \<^verbatim>\<open>max_retries\<close> and \<^verbatim>\<open>timeout_seconds\<close>, which raises \<^verbatim>\<open>OverflowError\<close> outside the
  signed 64-bit range; it violates a
  constraint when \<^verbatim>\<open>workflow_id\<close> or \<^verbatim>\<open>state\<close> is missing (\<^verbatim>\<open>NOT NULL\<close>) or the
  \<^verbatim>\<open>task_id\<close> is already a key of \<^verbatim>\<open>tasks\<close>; the second when \<^verbatim>\<open>task_id\<close> is missing;
  the third when the \<^verbatim>\<open>task_id\<close> is already a key of \<^verbatim>\<open>task_data\<close>. The handler rolls
  back and re-raises; when \<^verbatim>\<open>connect\<close> itself raised, the handler's \<^verbatim>\<open>if conn:\<close> reads a
  local that was never bound.
\<close>

text \<open>The database after the three inserts and the commit.\<close>

definition created_db :: "int \<Rightarrow> string \<Rightarrow> string \<Rightarrow> string \<Rightarrow> task_input \<Rightarrow> db \<Rightarrow> db" where
  "created_db now tid wid st inp d =
     \<lparr>tasks = tasks d @ [new_task_row now tid wid st inp],
      task_states = task_states d @ [initial_state_row (Suc (state_seq d)) now tid st],
      task_data = task_data d @ [new_payload_row tid inp],
      state_seq = Suc (state_seq d)\<rparr>"

definition create_task :: "nat option \<Rightarrow> int \<Rightarrow> task_input \<Rightarrow> db \<Rightarrow> (exn + string) \<times> db" where
  "create_task fault now inp d =
     (if fault = Some 0 then (Inl UnboundLocalError, d)
      else if fault = Some 1 then (Inl StorageFault, d)
      else if \<not> int64 (opt_default (i_max_retries inp) 3)
              \<or> \<not> int64 (opt_default (i_timeout_seconds inp) 120)
      then (Inl OverflowError, d)
      else case i_workflow_id inp of
        None \<Rightarrow> (Inl IntegrityError, d)
      | Some wid \<Rightarrow>
     (case i_state inp of
        None \<Rightarrow> (Inl IntegrityError, d)
      | Some st \<Rightarrow>
     (if (case i_task_id inp of None \<Rightarrow> False
          | Some tid \<Rightarrow> tid \<in> set (map t_task_id (tasks d)))
      then (Inl IntegrityError, d)
      else if fault = Some 2 then (Inl StorageFault, d)
      else case i_task_id inp of
        None \<Rightarrow> (Inl IntegrityError, d)
      | Some tid \<Rightarrow>
     (if fault = Some 3 then (Inl StorageFault, d)
      else if tid \<in> set (map d_task_id (task_data d)) then (Inl IntegrityError, d)
      else if fault = Some 4 then (Inl StorageFault, d)
      else (Inr tid, created_db now tid wid st inp d)))))"

subsection \<open>\<^verbatim>\<open>update_task_state\<close>\<close>

text \<open>
  The \<^verbatim>\<open>UPDATE task_states\<close> statement on one row. The duration is
  \<^verbatim>\<open>ROUND(strftime('%s', now) - strftime('%s', entered_at))\<close>: a difference of two whole
  numbers of seconds, which rounding leaves as it is.
\<close>

definition seal_event :: "int \<Rightarrow> string option \<Rightarrow> state_row \<Rightarrow> state_row" where
  "seal_event now result r =
     r\<lparr>s_exited_at := Some now,
       s_duration_seconds := Some (now - s_entered_at r),
       s_result := result\<rparr>"

definition seal_open :: "int \<Rightarrow> string option \<Rightarrow> string \<Rightarrow> string \<Rightarrow> state_row \<Rightarrow> state_row" where
  "seal_open now result tid current_state r =
     (if s_task_id r = tid \<and> s_state_name r = current_state \<and> s_exited_at r = None
      then seal_event now result r else r)"

text \<open>\<^verbatim>\<open>error.get('message') if error else None\<close>, the last parameter of the insert.\<close>

definition message_arg :: "(string \<times> pyval) list option \<Rightarrow> pyval" where
  "message_arg error =
     (if truthy_dict error then dict_get (opt_default error []) ''message'' else PNone)"

text \<open>
  The row that the insert adds; \<open>msg\<close> is what the column \<^verbatim>\<open>error_message\<close> holds once
  the message was bound.
\<close>

definition entered_row ::
  "nat \<Rightarrow> int \<Rightarrow> string \<Rightarrow> string \<Rightarrow> (string \<times> pyval) list option \<Rightarrow> pyval \<Rightarrow> state_row" where
  "entered_row n now tid new_state error msg =
     \<lparr>s_id = n, s_task_id = tid, s_state_name = new_state, s_entered_at = now,
      s_exited_at = None, s_duration_seconds = None, s_result = None,
      s_has_error = truthy_dict error,
      s_error_message = msg\<rparr>"

definition set_task_state :: "int \<Rightarrow> string \<Rightarrow> string \<Rightarrow> bool \<Rightarrow> bool \<Rightarrow> task_row \<Rightarrow> task_row" where
  "set_task_state now tid new_state is_complete has_error t =
     (if t_task_id t = tid
      then t\<lparr>t_current_state := new_state, t_updated_at := now,
             t_is_complete := is_complete, t_has_error := has_error\<rparr>
      else t)"

definition set_error_details ::
  "string \<Rightarrow> (string \<times> pyval) list option \<Rightarrow> payload_row \<Rightarrow> payload_row" where
  "set_error_details tid error p =
     (if truthy_dict error \<and> d_task_id p = tid then p\<lparr>d_error_details := error\<rparr> else p)"

definition set_results :: "string \<Rightarrow> (string \<times> pyval) list \<Rightarrow> payload_row \<Rightarrow> payload_row" where
  "set_results tid results p = (if d_task_id p = tid then p\<lparr>d_results := results\<rparr> else p)"

text \<open>\<^verbatim>\<open>if result: results[current_state] = result\<close>\<close>

definition merge_result ::
  "string \<Rightarrow> string option \<Rightarrow> (string \<times> pyval) list \<Rightarrow> (string \<times> pyval) list" where
  "merge_result current_state result results =
     (case result of
        None \<Rightarrow> results
      | Some r \<Rightarrow> if r \<noteq> [] then AList.update current_state (PStr r) results else results)"

text \<open>
  Storage calls of a run: 0 connect, 1 select the task; when the task exists, then the update
  of \<^verbatim>\<open>task_states\<close>, the insert, the update of \<^verbatim>\<open>tasks\<close>, the update of
  \<^verbatim>\<open>error_details\<close> (only when \<^verbatim>\<open>error\<close> is true), the select of \<^verbatim>\<open>results\<close>, the update
  of \<^verbatim>\<open>results\<close> and the commit. The insert, call 3, raises when the message of the error
  cannot be bound. \<open>sel\<close> is the number of the select of \<^verbatim>\<open>results\<close>;
  \<^verbatim>\<open>cursor.fetchone()[0]\<close> after it raises \<^verbatim>\<open>TypeError\<close> when the task has no row in
  \<^verbatim>\<open>task_data\<close>. Every exception rolls the transaction back and is re-raised.
\<close>

text \<open>
  The database after the statements of a transition and the commit: the open events of the
  state being left are sealed, the event of the state entered is appended, the task row and
  the payload row are rewritten.
\<close>

definition updated_db ::
  "int \<Rightarrow> string \<Rightarrow> string \<Rightarrow> string option \<Rightarrow> (string \<times> pyval) list option \<Rightarrow> pyval
     \<Rightarrow> string \<Rightarrow> bool \<Rightarrow> bool \<Rightarrow> (string \<times> pyval) list \<Rightarrow> db \<Rightarrow> db" where
  "updated_db now tid new_state result error msg current_state is_complete has_error results d =
     \<lparr>tasks = map (set_task_state now tid new_state is_complete has_error) (tasks d),
      task_states =
        map (seal_open now result tid current_state) (task_states d)
          @ [entered_row (Suc (state_seq d)) now tid new_state error msg],
      task_data = map (set_results tid results) (map (set_error_details tid error) (task_data d)),
      state_seq = Suc (state_seq d)\<rparr>"

definition update_task_state ::
  "nat option \<Rightarrow> int \<Rightarrow> string \<Rightarrow> string \<Rightarrow> string option \<Rightarrow> (string \<times> pyval) list option
     \<Rightarrow> db \<Rightarrow> (exn + bool) \<times> db" where
  "update_task_state fault now tid new_state result error d =
     (if fault = Some 0 then (Inl UnboundLocalError, d)
      else if fault = Some 1 then (Inl StorageFault, d)
      else case find_task d tid of
        None \<Rightarrow> (Inr False, d)
      | Some row \<Rightarrow>
         (let current_state = t_current_state row;
              completion_state = t_completion_state row;
              sel = (if truthy_dict error then 6 else 5 :: nat);
              is_complete = (new_state = completion_state);
              has_error = truthy_dict error
          in if fault = Some 2 \<or> fault = Some 3 then (Inl StorageFault, d)
             else case bind_text (message_arg error) of
               Inl e \<Rightarrow> (Inl e, d)
             | Inr msg \<Rightarrow>
             if (case fault of None \<Rightarrow> False | Some k \<Rightarrow> 4 \<le> k \<and> k \<le> sel)
             then (Inl StorageFault, d)
             else case find_payload d tid of
               None \<Rightarrow> (Inl TypeError, d)
             | Some p \<Rightarrow>
                if (case fault of None \<Rightarrow> False | Some k \<Rightarrow> sel < k \<and> k \<le> sel + 2)
                then (Inl StorageFault, d)
                else (Inr True,
                      updated_db now tid new_state result error msg current_state is_complete
                        has_error (merge_result current_state result (d_results p)) d)))"

subsection \<open>\<^verbatim>\<open>get_task\<close>\<close>

definition int_of_bool :: "bool \<Rightarrow> pyval" where
  "int_of_bool b = PInt (if b then 1 else 0)"

definition opt_val :: "('a \<Rightarrow> pyval) \<Rightarrow> 'a option \<Rightarrow> pyval" where
  "opt_val f x = (case x of None \<Rightarrow> PNone | Some v \<Rightarrow> f v)"

definition task_columns :: "task_row \<Rightarrow> (string \<times> pyval) list" where
  "task_columns t =
     [(''task_id'', PStr (t_task_id t)),
      (''workflow_id'', PStr (t_workflow_id t)),
      (''workflow_name'', PStr (t_workflow_name t)),
      (''workflow_version'', PStr (t_workflow_version t)),
      (''current_state'', PStr (t_current_state t)),
      (''completion_state'', PStr (t_completion_state t)),
      (''created_at'', PTime (t_created_at t)),
      (''updated_at'', PTime (t_updated_at t)),
      (''creator_id'', PStr (t_creator_id t)),
      (''priority'', PStr (t_priority t)),
      (''max_retries'', PInt (t_max_retries t)),
      (''retry_count'', PInt (t_retry_count t)),
      (''timeout_seconds'', PInt (t_timeout_seconds t)),
      (''is_complete'', int_of_bool (t_is_complete t)),
      (''has_error'', int_of_bool (t_has_error t))]"

definition payload_columns :: "payload_row \<Rightarrow> (string \<times> pyval) list" where
  "payload_columns p =
     [(''prompt'', PStr (d_prompt p)),
      (''context'', PStr (d_context p)),
      (''parameters'', d_parameters p),
      (''results'', PDict (d_results p)),
      (''next_states'', d_next_states p),
      (''error_details'', PDict (opt_default (d_error_details p) []))]"

definition state_columns :: "state_row \<Rightarrow> (string \<times> pyval) list" where
  "state_columns r =
     [(''state_name'', PStr (s_state_name r)),
      (''entered_at'', PTime (s_entered_at r)),
      (''exited_at'', opt_val PTime (s_exited_at r)),
      (''duration_seconds'', opt_val PInt (s_duration_seconds r)),
      (''result'', opt_val PStr (s_result r)),
      (''has_error'', int_of_bool (s_has_error r)),
      (''error_message'', s_error_message r)]"

text \<open>
  Storage calls of a run: 0 connect, 1 the join of \<^verbatim>\<open>tasks\<close> and \<^verbatim>\<open>task_data\<close>, 2 the
  select of the history (only when the join found a row). The handler returns the empty
  dictionary; when \<^verbatim>\<open>connect\<close> itself raised, its \<^verbatim>\<open>if conn:\<close> reads an unbound local.
  The history is ordered by \<^verbatim>\<open>entered_at\<close>; rows entered at the same second stay in
  insertion order.
\<close>

definition get_task :: "nat option \<Rightarrow> string \<Rightarrow> db \<Rightarrow> exn + (string \<times> pyval) list" where
  "get_task fault tid d =
     (if fault = Some 0 then Inl UnboundLocalError
      else if fault = Some 1 then Inr []
      else case find_task d tid of
        None \<Rightarrow> Inr []
      | Some t \<Rightarrow>
         (case find_payload d tid of
            None \<Rightarrow> Inr []
          | Some p \<Rightarrow>
             if fault = Some 2 then Inr []
             else Inr (task_columns t @ payload_columns p
                       @ [(''state_history'',
                           PList (map (\<lambda>r. PDict (state_columns r))
                                    (sort_key s_entered_at (history d tid))))])))"

subsection \<open>\<^verbatim>\<open>list_tasks\<close>\<close>

definition summary_columns :: "task_row \<Rightarrow> (string \<times> pyval) list" where
  "summary_columns t =
     [(''task_id'', PStr (t_task_id t)),
      (''workflow_id'', PStr (t_workflow_id t)),
      (''workflow_name'', PStr (t_workflow_name t)),
      (''current_state'', PStr (t_current_state t)),
      (''created_at'', PTime (t_created_at t)),
      (''updated_at'', PTime (t_updated_at t)),
      (''is_complete'', int_of_bool (t_is_complete t)),
      (''has_error'', int_of_bool (t_has_error t))]"

text \<open>The \<^verbatim>\<open>WHERE\<close> clause that the two \<^verbatim>\<open>if\<close> statements build.\<close>

definition matches :: "string option \<Rightarrow> string option \<Rightarrow> task_row \<Rightarrow> bool" where
  "matches workflow_id state t =
     ((if truthy_str workflow_id then Some (t_workflow_id t) = workflow_id else True) \<and>
      (if truthy_str state then Some (t_current_state t) = state else True))"

text \<open>\<^verbatim>\<open>LIMIT ?\<close>: SQLite reads a negative limit as no limit.\<close>

definition sql_limit :: "int \<Rightarrow> 'a list \<Rightarrow> 'a list" where
  "sql_limit n xs = (if n < 0 then xs else take (nat n) xs)"

text \<open>
  The rows that the query selects: \<^verbatim>\<open>ORDER BY updated_at DESC\<close>, rows updated at the same
  second in insertion order.
\<close>

definition selected_tasks :: "string option \<Rightarrow> string option \<Rightarrow> int \<Rightarrow> db \<Rightarrow> task_row list" where
  "selected_tasks workflow_id state limit d =
     sql_limit limit
       (sort_key (\<lambda>t. - t_updated_at t) (filter (matches workflow_id state) (tasks d)))"

text \<open>
  Storage calls of a run: 0 connect, 1 the select. The select binds \<^verbatim>\<open>limit\<close>, which raises
  \<^verbatim>\<open>OverflowError\<close> outside the signed 64-bit range; the handler returns the empty list.
\<close>

definition list_tasks ::
  "nat option \<Rightarrow> string option \<Rightarrow> string option \<Rightarrow> int \<Rightarrow> db \<Rightarrow> exn + (string \<times> pyval) list list" where
  "list_tasks fault workflow_id state limit d =
     (if fault = Some 0 then Inl UnboundLocalError
      else if fault = Some 1 then Inr []
      else if \<not> int64 limit then Inr []
      else Inr (map summary_columns (selected_tasks workflow_id state limit d)))"

text \<open>The columns of the summary query, in the order of its \<^verbatim>\<open>SELECT\<close> list.\<close>

definition summary_keys :: "string list" where
  "summary_keys = [''task_id'', ''workflow_id'', ''workflow_name'', ''current_state'',
                   ''created_at'', ''updated_at'', ''is_complete'', ''has_error'']"

subsection \<open>The storage calls of a run\<close>

text \<open>
  The number of storage calls, \<^verbatim>\<open>connect\<close> included, that a run of each operation makes
  when no call faults: the calls \<open>0\<close> to that number less one are the ones that can fault.
  A run that ends early makes fewer calls: \<^verbatim>\<open>get_task\<close> when the join finds no row;
  \<^verbatim>\<open>create_task\<close> when an insert raises; \<^verbatim>\<open>update_task_state\<close> when the task is
  unknown, when the insert cannot bind the message, or when the select of \<^verbatim>\<open>results\<close>
  finds no row.
\<close>

definition get_task_calls :: "string \<Rightarrow> db \<Rightarrow> nat" where
  "get_task_calls tid d =
     (if find_task d tid = None \<or> find_payload d tid = None then 2 else 3)"

definition list_tasks_calls :: nat where
  "list_tasks_calls = 2"

definition create_task_calls :: "task_input \<Rightarrow> db \<Rightarrow> nat" where
  "create_task_calls inp d =
     (if \<not> int64 (opt_default (i_max_retries inp) 3)
         \<or> \<not> int64 (opt_default (i_timeout_seconds inp) 120)
         \<or> i_workflow_id inp = None \<or> i_state inp = None
         \<or> (case i_task_id inp of None \<Rightarrow> False
             | Some tid \<Rightarrow> tid \<in> set (map t_task_id (tasks d)))
      then 2
      else case i_task_id inp of
        None \<Rightarrow> 3
      | Some tid \<Rightarrow> if tid \<in> set (map d_task_id (task_data d)) then 4 else 5)"

definition update_task_state_calls :: "string \<Rightarrow> (string \<times> pyval) list option \<Rightarrow> db \<Rightarrow> nat" where
  "update_task_state_calls tid error d =
     (if find_task d tid = None then 2
      else case bind_text (message_arg error) of
        Inl e \<Rightarrow> 4
      | Inr msg \<Rightarrow>
         (let sel = (if truthy_dict error then 6 else 5 :: nat)
          in if find_payload d tid = None then sel + 1 else sel + 3))"

subsection \<open>Databases that the operations can produce\<close>

inductive reachable :: "db \<Rightarrow> bool" where
  init: "reachable empty_db"
| create: "reachable d \<Longrightarrow> reachable (snd (create_task fault now inp d))"
| update: "reachable d \<Longrightarrow> reachable (snd (update_task_state fault now tid new_state result error d))"

subsection \<open>The invariant of the store\<close>

text \<open>
  Every task has exactly one open event, named after its current state; every event belongs
  to a task; every task has a payload row; every sealed event carries the difference of its
  two timestamps as its duration.
\<close>

definition store_inv :: "db \<Rightarrow> bool" where
  "store_inv d =
     ((\<forall>t \<in> set (tasks d). map s_state_name (open_events d (t_task_id t)) = [t_current_state t]) \<and>
      (\<forall>r \<in> set (task_states d). s_task_id r \<in> t_task_id ` set (tasks d)) \<and>
      (\<forall>t \<in> set (tasks d). t_task_id t \<in> d_task_id ` set (task_data d)) \<and>
      (\<forall>r \<in> set (task_states d). \<forall>e. s_exited_at r = Some e \<longrightarrow>
          s_duration_seconds r = Some (e - s_entered_at r)))"

subsection \<open>The results mapping of a task\<close>

text \<open>The \<^verbatim>\<open>results\<close> column of the payload row of a task, the empty mapping without a row.\<close>

definition results_of :: "db \<Rightarrow> string \<Rightarrow> (string \<times> pyval) list" where
  "results_of d tid = (case find_payload d tid of None \<Rightarrow> [] | Some p \<Rightarrow> d_results p)"

subsection \<open>Sample runs\<close>

text \<open>
  A task \<open>t1\<close> of workflow \<open>w1\<close> created in state \<open>S0\<close> at second 100; a transition
  from \<open>S0\<close> to \<open>S0\<close> with result \<open>r1\<close> at second 110; a transition to \<open>S1\<close> with
  result \<open>r2\<close> at second 125.
\<close>

definition ex_input :: task_input where
  "ex_input =
     \<lparr>i_task_id = Some ''t1'', i_workflow_id = Some ''w1'', i_state = Some ''S0'',
      i_wf_name = None, i_wf_version = None, i_wf_completion_state = Some ''done'',
      i_wf_next_states = None, i_creator_id = None, i_priority = None, i_max_retries = None,
      i_timeout_seconds = None, i_prompt = None, i_context = None, i_parameters = None,
      i_results = None, i_error = None\<rparr>"

definition ex_db1 :: db where
  "ex_db1 = snd (create_task None 100 ex_input empty_db)"

definition ex_db2 :: db where
  "ex_db2 = snd (update_task_state None 110 ''t1'' ''S0'' (Some ''r1'') None ex_db1)"

definition ex_db3 :: db where
  "ex_db3 = snd (update_task_state None 125 ''t1'' ''S1'' (Some ''r2'') None ex_db2)"

text \<open>A second task \<open>t2\<close>, of workflow \<open>w2\<close>, created at second 105 beside \<open>t1\<close>.\<close>

definition ex_input2 :: task_input where
  "ex_input2 = ex_input\<lparr>i_task_id := Some ''t2'', i_workflow_id := Some ''w2''\<rparr>"

definition ex_db_pair :: db where
  "ex_db_pair = snd (create_task None 105 ex_input2 ex_db1)"

section \<open>Properties\<close>

subsection \<open>Lookups and the outcomes of the two writing operations\<close>

lemma find_task_Some: "find_task d tid = Some row \<Longrightarrow> row \<in> set (tasks d) \<and> t_task_id row = tid"
  by (auto simp: find_task_def find_Some_iff)

lemma find_task_None: "find_task d tid = None \<longleftrightarrow> tid \<notin> t_task_id ` set (tasks d)"
  by (auto simp: find_task_def find_None_iff)

lemma find_payload_Some: "find_payload d tid = Some p \<Longrightarrow> p \<in> set (task_data d) \<and> d_task_id p = tid"
  by (auto simp: find_payload_def find_Some_iff)

lemma find_payload_None: "find_payload d tid = None \<longleftrightarrow> tid \<notin> d_task_id ` set (task_data d)"
  by (auto simp: find_payload_def find_None_iff)

lemma seal_open_task_id [simp]: "s_task_id (seal_open now res tid cs r) = s_task_id r"
  by (simp add: seal_open_def seal_event_def)

lemma seal_open_other:
  "tid' \<noteq> tid \<Longrightarrow>
   filter (\<lambda>r. s_task_id r = tid' \<and> s_exited_at r = None) (map (seal_open now res tid cs) rs)
     = filter (\<lambda>r. s_task_id r = tid' \<and> s_exited_at r = None) rs"
  by (induction rs) (auto simp: seal_open_def seal_event_def)

lemma seal_open_all:
  "\<forall>r \<in> set rs. s_task_id r = tid \<and> s_exited_at r = None \<longrightarrow> s_state_name r = cs \<Longrightarrow>
   filter (\<lambda>r. s_task_id r = tid \<and> s_exited_at r = None) (map (seal_open now res tid cs) rs) = []"
  by (induction rs) (auto simp: seal_open_def seal_event_def)

lemma open_names_single:
  assumes "map s_state_name (open_events d tid) = [cs]"
  shows "\<forall>r \<in> set (task_states d). s_task_id r = tid \<and> s_exited_at r = None \<longrightarrow> s_state_name r = cs"
proof (intro ballI impI)
  fix r assume "r \<in> set (task_states d)" "s_task_id r = tid \<and> s_exited_at r = None"
  then have "r \<in> set (open_events d tid)" by (simp add: open_events_def)
  then have "s_state_name r \<in> set (map s_state_name (open_events d tid))" by simp
  with assms show "s_state_name r = cs" by simp
qed

lemma create_task_cases:
  "(\<exists>e. create_task fault now inp d = (Inl e, d)) \<or>
   (\<exists>tid wid st. i_task_id inp = Some tid \<and> i_workflow_id inp = Some wid \<and> i_state inp = Some st \<and>
      tid \<notin> t_task_id ` set (tasks d) \<and> tid \<notin> d_task_id ` set (task_data d) \<and>
      create_task fault now inp d = (Inr tid, created_db now tid wid st inp d))"
  unfolding create_task_def
  by (simp split: option.split)

lemma update_task_state_cases:
  "(\<exists>e. update_task_state fault now tid ns res err d = (Inl e, d)) \<or>
   (find_task d tid = None \<and> update_task_state fault now tid ns res err d = (Inr False, d)) \<or>
   (\<exists>row p msg. find_task d tid = Some row \<and> find_payload d tid = Some p \<and>
      bind_text (message_arg err) = Inr msg \<and>
      update_task_state fault now tid ns res err d =
        (Inr True, updated_db now tid ns res err msg (t_current_state row)
           (ns = t_completion_state row) (truthy_dict err)
           (merge_result (t_current_state row) res (d_results p)) d))"
  unfolding update_task_state_def Let_def
  by (simp split: option.split sum.split)

lemma open_events_created_same:
  "open_events (created_db now tid wid st inp d) tid = open_events d tid @ [initial_state_row (Suc (state_seq d)) now tid st]"
  by (simp add: open_events_def created_db_def initial_state_row_def)

lemma open_events_created_other:
  "tid' \<noteq> tid \<Longrightarrow> open_events (created_db now tid wid st inp d) tid' = open_events d tid'"
  by (simp add: open_events_def created_db_def initial_state_row_def)

lemma open_events_absent:
  assumes "\<forall>r \<in> set (task_states d). s_task_id r \<in> t_task_id ` set (tasks d)"
    and "tid \<notin> t_task_id ` set (tasks d)"
  shows "open_events d tid = []"
  using assms by (auto simp: open_events_def filter_empty_conv)

lemma created_inv:
  assumes inv: "store_inv d" and fresh: "tid \<notin> t_task_id ` set (tasks d)"
  shows "store_inv (created_db now tid wid st inp d)"
proof -
  let ?d = "created_db now tid wid st inp d"
  have tasks: "tasks ?d = tasks d @ [new_task_row now tid wid st inp]"
    and states: "task_states ?d = task_states d @ [initial_state_row (Suc (state_seq d)) now tid st]"
    and data: "task_data ?d = task_data d @ [new_payload_row tid inp]"
    by (simp_all add: created_db_def)
  have nid: "t_task_id (new_task_row now tid wid st inp) = tid"
    and ncs: "t_current_state (new_task_row now tid wid st inp) = st"
    by (simp_all add: new_task_row_def)
  have a: "\<forall>t \<in> set (tasks ?d). map s_state_name (open_events ?d (t_task_id t)) = [t_current_state t]"
  proof
    fix t assume "t \<in> set (tasks ?d)"
    then consider "t \<in> set (tasks d)" | "t = new_task_row now tid wid st inp"
      by (auto simp: tasks)
    then show "map s_state_name (open_events ?d (t_task_id t)) = [t_current_state t]"
    proof cases
      case 1
      with fresh have "t_task_id t \<noteq> tid" by auto
      with 1 inv show ?thesis by (simp add: open_events_created_other store_inv_def)
    next
      case 2
      from inv fresh have "open_events d tid = []"
        by (intro open_events_absent) (simp_all add: store_inv_def)
      with 2 show ?thesis
        by (simp add: nid ncs open_events_created_same initial_state_row_def)
    qed
  qed
  have b: "\<forall>r \<in> set (task_states ?d). s_task_id r \<in> t_task_id ` set (tasks ?d)"
    using inv by (auto simp: tasks states store_inv_def nid initial_state_row_def)
  have c: "\<forall>t \<in> set (tasks ?d). t_task_id t \<in> d_task_id ` set (task_data ?d)"
    using inv by (auto simp: tasks data store_inv_def nid new_payload_row_def)
  have e: "\<forall>r \<in> set (task_states ?d). \<forall>e. s_exited_at r = Some e \<longrightarrow>
          s_duration_seconds r = Some (e - s_entered_at r)"
    using inv by (auto simp: states store_inv_def initial_state_row_def)
  from a b c e show ?thesis unfolding store_inv_def by blast
qed

lemma set_task_state_id [simp]: "t_task_id (set_task_state now tid ns ic he t) = t_task_id t"
  by (simp add: set_task_state_def)

lemma set_results_id [simp]: "d_task_id (set_results tid rs p) = d_task_id p"
  by (simp add: set_results_def)

lemma set_error_details_id [simp]: "d_task_id (set_error_details tid err p) = d_task_id p"
  by (simp add: set_error_details_def)

lemma updated_tasks_ids:
  "t_task_id ` set (tasks (updated_db now tid ns res err msg cs ic he rs d)) = t_task_id ` set (tasks d)"
  by (simp add: updated_db_def image_image)

lemma updated_data_ids:
  "d_task_id ` set (task_data (updated_db now tid ns res err msg cs ic he rs d)) = d_task_id ` set (task_data d)"
  by (simp add: updated_db_def image_image)

lemma open_events_updated_same:
  assumes "map s_state_name (open_events d tid) = [cs]"
  shows "open_events (updated_db now tid ns res err msg cs ic he rs d) tid
           = [entered_row (Suc (state_seq d)) now tid ns err msg]"
  using seal_open_all [OF open_names_single [OF assms], of now res]
  by (simp add: open_events_def updated_db_def entered_row_def)

lemma open_events_updated_other:
  "tid' \<noteq> tid \<Longrightarrow> open_events (updated_db now tid ns res err msg cs ic he rs d) tid' = open_events d tid'"
  by (simp add: open_events_def updated_db_def entered_row_def seal_open_other)

lemma updated_inv:
  assumes inv: "store_inv d" and row: "find_task d tid = Some row"
  shows "store_inv (updated_db now tid ns res err msg (t_current_state row) ic he rs d)"
proof -
  let ?cs = "t_current_state row"
  let ?d = "updated_db now tid ns res err msg ?cs ic he rs d"
  from row have rin: "row \<in> set (tasks d)" and rid: "t_task_id row = tid"
    by (simp_all add: find_task_Some)
  with inv have opens: "map s_state_name (open_events d tid) = [?cs]"
    by (auto simp: store_inv_def)
  have tasks: "tasks ?d = map (set_task_state now tid ns ic he) (tasks d)"
    and states: "task_states ?d = map (seal_open now res tid ?cs) (task_states d)
                       @ [entered_row (Suc (state_seq d)) now tid ns err msg]"
    by (simp_all add: updated_db_def)
  have a: "\<forall>t \<in> set (tasks ?d). map s_state_name (open_events ?d (t_task_id t)) = [t_current_state t]"
  proof
    fix t' assume "t' \<in> set (tasks ?d)"
    then obtain t where t: "t \<in> set (tasks d)" and t': "t' = set_task_state now tid ns ic he t"
      by (auto simp: tasks)
    show "map s_state_name (open_events ?d (t_task_id t')) = [t_current_state t']"
    proof (cases "t_task_id t = tid")
      case True
      then show ?thesis
        by (simp add: t' open_events_updated_same [OF opens] set_task_state_def entered_row_def)
    next
      case False
      with t inv show ?thesis
        by (simp add: t' open_events_updated_other set_task_state_def store_inv_def)
    qed
  qed
  have b: "\<forall>r \<in> set (task_states ?d). s_task_id r \<in> t_task_id ` set (tasks ?d)"
  proof
    fix r assume "r \<in> set (task_states ?d)"
    then consider r0 where "r0 \<in> set (task_states d)" "r = seal_open now res tid ?cs r0"
      | "r = entered_row (Suc (state_seq d)) now tid ns err msg"
      by (auto simp: states)
    then show "s_task_id r \<in> t_task_id ` set (tasks ?d)"
    proof cases
      case 1
      with inv show ?thesis by (simp add: updated_tasks_ids store_inv_def)
    next
      case 2
      with rin rid show ?thesis by (auto simp: updated_tasks_ids entered_row_def)
    qed
  qed
  have c: "\<forall>t \<in> set (tasks ?d). t_task_id t \<in> d_task_id ` set (task_data ?d)"
  proof
    fix t assume "t \<in> set (tasks ?d)"
    then have "t_task_id t \<in> t_task_id ` set (tasks ?d)" by simp
    then have "t_task_id t \<in> t_task_id ` set (tasks d)" by (simp only: updated_tasks_ids)
    with inv have "t_task_id t \<in> d_task_id ` set (task_data d)" by (auto simp: store_inv_def)
    then show "t_task_id t \<in> d_task_id ` set (task_data ?d)" by (simp only: updated_data_ids)
  qed
  have e: "\<forall>r \<in> set (task_states ?d). \<forall>e. s_exited_at r = Some e \<longrightarrow>
          s_duration_seconds r = Some (e - s_entered_at r)"
  proof (intro ballI allI impI)
    fix r e assume "r \<in> set (task_states ?d)" and ex: "s_exited_at r = Some e"
    then consider r0 where "r0 \<in> set (task_states d)" "r = seal_open now res tid ?cs r0"
      | "r = entered_row (Suc (state_seq d)) now tid ns err msg"
      by (auto simp: states)
    then show "s_duration_seconds r = Some (e - s_entered_at r)"
    proof cases
      case 1
      with inv ex show ?thesis
        by (auto simp: store_inv_def seal_open_def seal_event_def split: if_splits)
    next
      case 2
      with ex show ?thesis by (simp add: entered_row_def)
    qed
  qed
  from a b c e show ?thesis unfolding store_inv_def by blast
qed

lemma create_task_inv: "store_inv d \<Longrightarrow> store_inv (snd (create_task fault now inp d))"
  using create_task_cases [of fault now inp d] by (auto intro: created_inv)

lemma update_task_state_inv:
  "store_inv d \<Longrightarrow> store_inv (snd (update_task_state fault now tid ns res err d))"
  using update_task_state_cases [of fault now tid ns res err d] by (auto intro: updated_inv)

lemma empty_inv: "store_inv empty_db"
  by (simp add: store_inv_def empty_db_def)

lemma reachable_inv: "reachable d \<Longrightarrow> store_inv d"
  by (induction rule: reachable.induct) (simp_all add: empty_inv create_task_inv update_task_state_inv)

subsection \<open>The sample runs, evaluated\<close>

lemma ex_db1_eq: "ex_db1 = created_db 100 ''t1'' ''w1'' ''S0'' ex_input empty_db"
  by (simp add: ex_db1_def create_task_def ex_input_def empty_db_def opt_default_def int64_def)

lemma ex_db1_rows:
  "tasks ex_db1 = [new_task_row 100 ''t1'' ''w1'' ''S0'' ex_input]"
  "task_states ex_db1 = [initial_state_row 1 100 ''t1'' ''S0'']"
  "task_data ex_db1 = [new_payload_row ''t1'' ex_input]"
  "state_seq ex_db1 = 1"
  by (simp_all add: ex_db1_eq created_db_def empty_db_def)

lemma ex_db1_find:
  "find_task ex_db1 ''t1'' = Some (new_task_row 100 ''t1'' ''w1'' ''S0'' ex_input)"
  "find_payload ex_db1 ''t1'' = Some (new_payload_row ''t1'' ex_input)"
  by (simp_all add: find_task_def find_payload_def ex_db1_rows new_task_row_def new_payload_row_def)

lemma ex_db2_eq:
  "ex_db2 = updated_db 110 ''t1'' ''S0'' (Some ''r1'') None PNone ''S0'' False False [(''S0'', PStr ''r1'')] ex_db1"
  by (simp add: ex_db2_def update_task_state_def ex_db1_find Let_def truthy_dict_def message_arg_def
      new_task_row_def new_payload_row_def ex_input_def opt_default_def merge_result_def)

lemma ex_db2_rows:
  "tasks ex_db2 = [(new_task_row 100 ''t1'' ''w1'' ''S0'' ex_input)\<lparr>t_current_state := ''S0'', t_updated_at := 110, t_is_complete := False, t_has_error := False\<rparr>]"
  "task_states ex_db2 = [seal_event 110 (Some ''r1'') (initial_state_row 1 100 ''t1'' ''S0''), entered_row 2 110 ''t1'' ''S0'' None PNone]"
  "task_data ex_db2 = [(new_payload_row ''t1'' ex_input)\<lparr>d_results := [(''S0'', PStr ''r1'')]\<rparr>]"
  "state_seq ex_db2 = 2"
  by (simp_all add: ex_db2_eq updated_db_def ex_db1_rows set_task_state_def new_task_row_def
      seal_open_def initial_state_row_def set_results_def set_error_details_def new_payload_row_def truthy_dict_def
      numeral_2_eq_2)

lemma ex_db2_find:
  "find_task ex_db2 ''t1'' = Some ((new_task_row 100 ''t1'' ''w1'' ''S0'' ex_input)\<lparr>t_current_state := ''S0'', t_updated_at := 110, t_is_complete := False, t_has_error := False\<rparr>)"
  "find_payload ex_db2 ''t1'' = Some ((new_payload_row ''t1'' ex_input)\<lparr>d_results := [(''S0'', PStr ''r1'')]\<rparr>)"
  by (simp_all add: find_task_def find_payload_def ex_db2_rows new_task_row_def new_payload_row_def)

lemma ex_results:
  "results_of ex_db1 ''t1'' = []"
  "results_of ex_db2 ''t1'' = [(''S0'', PStr ''r1'')]"
  by (simp_all add: results_of_def ex_db1_find ex_db2_find new_payload_row_def ex_input_def opt_default_def)

lemma ex_db_pair_tasks:
  "tasks ex_db_pair = [new_task_row 100 ''t1'' ''w1'' ''S0'' ex_input,
                       new_task_row 105 ''t2'' ''w2'' ''S0'' ex_input2]"
  by (simp add: ex_db_pair_def create_task_def ex_input2_def ex_input_def ex_db1_rows
      created_db_def new_task_row_def new_payload_row_def opt_default_def int64_def)

lemma ex_message_list:
  "update_task_state None 110 ''t1'' ''S1'' None (Some [(''message'', PList [PStr ''a''])]) ex_db1
     = (Inl BindingError, ex_db1)"
  by (simp add: update_task_state_def ex_db1_find Let_def message_arg_def truthy_dict_def
      dict_get_def opt_default_def)

lemma ex_message_int:
  "bind_text (message_arg (Some [(''message'', PInt 5)])) = Inr (PStr ''5'')"
  by (simp add: message_arg_def truthy_dict_def dict_get_def opt_default_def int64_def
      dec_int_def dec_nat.simps [of 5])

lemma ex_db1_reachable: "reachable ex_db1"
  unfolding ex_db1_def by (rule reachable.create [OF reachable.init])

lemma ex_db2_reachable: "reachable ex_db2"
  unfolding ex_db2_def by (rule reachable.update [OF ex_db1_reachable])

subsection \<open>A successful transition\<close>

lemma find_map_keep:
  assumes "\<And>x. P (f x) = P x"
  shows "find P (map f xs) = map_option f (find P xs)"
  by (induction xs) (simp_all add: assms)

lemma find_task_updated:
  "find_task d tid = Some row \<Longrightarrow>
   find_task (updated_db now tid ns res err msg cs ic he rs d) tid
     = Some (row\<lparr>t_current_state := ns, t_updated_at := now, t_is_complete := ic, t_has_error := he\<rparr>)"
proof -
  assume r: "find_task d tid = Some row"
  then have "t_task_id row = tid" by (simp add: find_task_Some)
  then have "set_task_state now tid ns ic he row
      = row\<lparr>t_current_state := ns, t_updated_at := now, t_is_complete := ic, t_has_error := he\<rparr>"
    by (simp add: set_task_state_def)
  moreover have "find_task (updated_db now tid ns res err msg cs ic he rs d) tid
      = map_option (set_task_state now tid ns ic he) (find_task d tid)"
    by (simp add: find_task_def updated_db_def find_map_keep)
  ultimately show ?thesis using r by simp
qed

lemma find_payload_updated:
  "find_payload d tid = Some p \<Longrightarrow>
   find_payload (updated_db now tid ns res err msg cs ic he rs d) tid
     = Some (set_results tid rs (set_error_details tid err p))"
  by (simp add: find_payload_def updated_db_def find_map_keep)

lemma update_task_state_ok:
  assumes "find_task d tid = Some row" and "find_payload d tid = Some p"
    and "bind_text (message_arg err) = Inr msg"
  shows "update_task_state None now tid ns res err d =
        (Inr True, updated_db now tid ns res err msg (t_current_state row)
           (ns = t_completion_state row) (truthy_dict err)
           (merge_result (t_current_state row) res (d_results p)) d)"
  using assms by (simp add: update_task_state_def Let_def)

lemma bind_no_error: "bind_text (message_arg None) = Inr PNone"
  by (simp add: message_arg_def truthy_dict_def)

lemma bind_empty_error: "bind_text (message_arg (Some [])) = Inr PNone"
  by (simp add: message_arg_def truthy_dict_def)

lemma bind_boom: "bind_text (message_arg (Some [(''message'', PStr ''boom'')])) = Inr (PStr ''boom'')"
  by (simp add: message_arg_def truthy_dict_def dict_get_def opt_default_def)

lemma reachable_payload:
  assumes "reachable d" and "find_task d tid = Some row"
  shows "\<exists>p. find_payload d tid = Some p"
proof -
  from assms(2) have "row \<in> set (tasks d)" "t_task_id row = tid" by (simp_all add: find_task_Some)
  with reachable_inv [OF assms(1)] have "tid \<in> d_task_id ` set (task_data d)"
    by (auto simp: store_inv_def)
  then have "find_payload d tid \<noteq> None" by (simp add: find_payload_None)
  then show ?thesis by auto
qed

lemma reachable_open:
  assumes "reachable d" and "find_task d tid = Some row"
  shows "\<exists>r. open_events d tid = [r] \<and> s_state_name r = t_current_state row"
proof -
  from assms(2) have "row \<in> set (tasks d)" "t_task_id row = tid" by (simp_all add: find_task_Some)
  with reachable_inv [OF assms(1)] have "map s_state_name (open_events d tid) = [t_current_state row]"
    by (auto simp: store_inv_def)
  then show ?thesis by (cases "open_events d tid") auto
qed

lemma results_of_updated:
  assumes "find_payload d tid = Some p"
  shows "results_of (updated_db now tid ns res err msg cs ic he rs d) tid = rs"
  using assms
  by (simp add: results_of_def find_payload_updated set_results_def set_error_details_def
      find_payload_Some)

lemma update_task_state_True:
  assumes "update_task_state fault now tid ns res err d = (Inr True, d')"
  obtains row p msg where "find_task d tid = Some row" and "find_payload d tid = Some p"
    and "bind_text (message_arg err) = Inr msg"
    and "d' = updated_db now tid ns res err msg (t_current_state row)
           (ns = t_completion_state row) (truthy_dict err)
           (merge_result (t_current_state row) res (d_results p)) d"
proof -
  from update_task_state_cases [of fault now tid ns res err d]
  consider (raised) e where "update_task_state fault now tid ns res err d = (Inl e, d)"
    | (absent) "update_task_state fault now tid ns res err d = (Inr False, d)"
    | (updated) row p msg where "find_task d tid = Some row" "find_payload d tid = Some p"
        "bind_text (message_arg err) = Inr msg"
        "update_task_state fault now tid ns res err d =
          (Inr True, updated_db now tid ns res err msg (t_current_state row)
             (ns = t_completion_state row) (truthy_dict err)
             (merge_result (t_current_state row) res (d_results p)) d)"
    by blast
  then show thesis
  proof cases
    case raised
    with assms show thesis by simp
  next
    case absent
    with assms show thesis by simp
  next
    case updated
    with assms that show thesis by simp
  qed
qed

subsection \<open>The open event of a task and its sealing\<close>

lemma open_event_mem:
  assumes "open_events d tid = [r]"
  shows "r \<in> set (task_states d)" and "s_task_id r = tid" and "s_exited_at r = None"
proof -
  have "r \<in> set (open_events d tid)" using assms by simp
  then show "r \<in> set (task_states d)" and "s_task_id r = tid" and "s_exited_at r = None"
    by (simp_all add: open_events_def)
qed

lemma open_event_only:
  assumes "open_events d tid = [r]" and "x \<in> set (task_states d)"
    and "s_task_id x = tid" and "s_exited_at x = None"
  shows "x = r"
proof -
  from assms(2-4) have "x \<in> set (open_events d tid)" by (simp add: open_events_def)
  with assms(1) show ?thesis by simp
qed

lemma seal_open_the_open:
  assumes "open_events d tid = [r]" and "s_state_name r = cs"
    and "x \<in> set (task_states d)" and "s_task_id x = tid"
  shows "seal_open now res tid cs x = (if x = r then seal_event now res r else x)"
proof (cases "x = r")
  case True
  with assms(1,2) open_event_mem [OF assms(1)] show ?thesis by (simp add: seal_open_def)
next
  case False
  with open_event_only [OF assms(1,3,4)] have "s_exited_at x \<noteq> None" by blast
  with False show ?thesis by (auto simp: seal_open_def)
qed

lemma history_updated:
  "history (updated_db now tid ns res err msg cs ic he rs d) tid
     = map (seal_open now res tid cs) (history d tid) @ [entered_row (Suc (state_seq d)) now tid ns err msg]"
  by (simp add: history_def updated_db_def entered_row_def filter_map comp_def)

lemma sealed_in_updated:
  assumes "open_events d tid = [r]" and "s_state_name r = cs"
  shows "seal_event now res r \<in> set (task_states (updated_db now tid ns res err msg cs ic he rs d))"
proof -
  from open_event_mem [OF assms(1)] assms(2)
  have "seal_open now res tid cs r = seal_event now res r" by (simp add: seal_open_def)
  moreover have "seal_open now res tid cs r \<in> set (task_states (updated_db now tid ns res err msg cs ic he rs d))"
    using open_event_mem(1) [OF assms(1)] by (simp add: updated_db_def)
  ultimately show ?thesis by simp
qed

subsection \<open>Limit, order and filter of the listing\<close>

lemma sorted_desc:
  "sorted_wrt (\<lambda>a b. t_updated_at b \<le> t_updated_at a) (sort_key (\<lambda>t. - t_updated_at t) xs)"
proof -
  have "sorted (map (\<lambda>t. - t_updated_at t) (sort_key (\<lambda>t. - t_updated_at t) xs))"
    by (rule sorted_sort_key)
  then show ?thesis by (simp add: sorted_map)
qed

lemma matches_iff:
  "matches workflow_id state t \<longleftrightarrow>
     ((workflow_id \<noteq> None \<and> workflow_id \<noteq> Some [] \<longrightarrow> Some (t_workflow_id t) = workflow_id) \<and>
      (state \<noteq> None \<and> state \<noteq> Some [] \<longrightarrow> Some (t_current_state t) = state))"
  by (cases workflow_id; cases state) (auto simp: matches_def truthy_str_def)

subsection \<open>A fault of the storage layer\<close>

lemma get_task_reached:
  assumes "0 < k" and "k < get_task_calls tid d"
  shows "get_task (Some k) tid d = Inr []"
proof -
  have "get_task_calls tid d \<le> 3" by (simp add: get_task_calls_def)
  with assms consider "k = 1" | "k = 2" by force
  then show ?thesis
  proof cases
    case 1
    then show ?thesis by (simp add: get_task_def)
  next
    case 2
    then show ?thesis by (simp add: get_task_def split: option.split)
  qed
qed

lemma get_task_unreached:
  assumes "get_task_calls tid d \<le> k"
  shows "get_task (Some k) tid d = get_task None tid d"
proof -
  have "2 \<le> get_task_calls tid d" by (simp add: get_task_calls_def)
  with assms have k: "k \<noteq> 0" "k \<noteq> 1" by simp_all
  show ?thesis
  proof (cases "find_task d tid = None \<or> find_payload d tid = None")
    case True
    then show ?thesis by (auto simp: get_task_def k split: option.split)
  next
    case False
    with assms have "k \<noteq> 2" by (simp add: get_task_calls_def)
    with k False show ?thesis by (auto simp: get_task_def)
  qed
qed

lemma list_tasks_reached:
  "0 < k \<Longrightarrow> k < list_tasks_calls \<Longrightarrow> list_tasks (Some k) wid st lim d = Inr []"
  by (simp add: list_tasks_calls_def list_tasks_def)

lemma list_tasks_unreached:
  "list_tasks_calls \<le> k \<Longrightarrow> list_tasks (Some k) wid st lim d = list_tasks None wid st lim d"
  by (simp add: list_tasks_calls_def list_tasks_def)

lemma create_task_reached:
  assumes "0 < k" and "k < create_task_calls inp d"
  shows "create_task (Some k) now inp d = (Inl StorageFault, d)"
proof -
  have "create_task_calls inp d \<le> 5"
    by (simp add: create_task_calls_def split: option.split)
  with assms consider "k = 1" | "k = 2" | "k = 3" | "k = 4" by force
  then show ?thesis
  proof cases
    case 1
    then show ?thesis by (simp add: create_task_def)
  next
    case 2
    with assms(2) show ?thesis
      by (auto simp: create_task_def create_task_calls_def split: option.splits if_splits)
  next
    case 3
    with assms(2) show ?thesis
      by (auto simp: create_task_def create_task_calls_def split: option.splits if_splits)
  next
    case 4
    with assms(2) show ?thesis
      by (auto simp: create_task_def create_task_calls_def split: option.splits if_splits)
  qed
qed

lemma create_task_unreached:
  assumes "create_task_calls inp d \<le> k"
  shows "create_task (Some k) now inp d = create_task None now inp d"
proof -
  have "2 \<le> create_task_calls inp d"
    by (simp add: create_task_calls_def split: option.split)
  with assms have k: "k \<noteq> 0" "k \<noteq> 1" by simp_all
  from assms k show ?thesis
    by (auto simp: create_task_def create_task_calls_def split: option.splits if_splits)
qed

lemma update_task_state_reached:
  assumes "0 < k" and "k < update_task_state_calls tid err d"
  shows "update_task_state (Some k) now tid ns res err d = (Inl StorageFault, d)"
proof (cases "find_task d tid")
  case None
  with assms have "k = 1" by (simp add: update_task_state_calls_def)
  then show ?thesis by (simp add: update_task_state_def)
next
  case (Some row)
  show ?thesis
  proof (cases "bind_text (message_arg err)")
    case (Inl e)
    with Some assms consider "k = 1" | "k = 2" | "k = 3"
      by (force simp: update_task_state_calls_def)
    then show ?thesis
      by cases (simp_all add: update_task_state_def Some Let_def)
  next
    case (Inr msg)
    show ?thesis
    proof (cases "find_payload d tid")
      case None
      with Some Inr assms have "k \<le> (if truthy_dict err then 6 else 5)"
        by (simp add: update_task_state_calls_def Let_def split: if_splits)
      with assms(1) show ?thesis
        by (simp add: update_task_state_def Some Inr None Let_def)
    next
      case (Some p)
      with \<open>find_task d tid = Some row\<close> Inr assms
      have "k \<le> (if truthy_dict err then 6 else 5) + 2"
        by (simp add: update_task_state_calls_def Let_def split: if_splits)
      with assms(1) show ?thesis
        by (simp add: update_task_state_def \<open>find_task d tid = Some row\<close> Inr Some Let_def)
    qed
  qed
qed

lemma update_task_state_unreached:
  assumes "update_task_state_calls tid err d \<le> k"
  shows "update_task_state (Some k) now tid ns res err d = update_task_state None now tid ns res err d"
proof (cases "find_task d tid")
  case None
  with assms have "k \<noteq> 0" "k \<noteq> 1" by (simp_all add: update_task_state_calls_def)
  with None show ?thesis by (simp add: update_task_state_def)
next
  case (Some row)
  show ?thesis
  proof (cases "bind_text (message_arg err)")
    case (Inl e)
    with Some assms have "4 \<le> k" by (simp add: update_task_state_calls_def)
    then show ?thesis by (simp add: update_task_state_def Some Inl Let_def)
  next
    case (Inr msg)
    show ?thesis
    proof (cases "find_payload d tid")
      case None
      with Some Inr assms have "(if truthy_dict err then 6 else 5) < k"
        by (simp add: update_task_state_calls_def Let_def split: if_splits)
      then show ?thesis
        by (simp add: update_task_state_def Some Inr None Let_def split: if_splits)
    next
      case (Some p)
      with \<open>find_task d tid = Some row\<close> Inr assms
      have "(if truthy_dict err then 6 else 5) + 2 < k"
        by (simp add: update_task_state_calls_def Let_def split: if_splits)
      then show ?thesis
        by (simp add: update_task_state_def \<open>find_task d tid = Some row\<close> Inr Some Let_def
            split: if_splits)
    qed
  qed
qed

lemma create_task_rollback:
  "fst (create_task fault now inp d) = Inl e \<Longrightarrow> snd (create_task fault now inp d) = d"
  using create_task_cases [of fault now inp d] by auto

lemma update_task_state_rollback:
  "fst (update_task_state fault now tid ns res err d) = Inl e
     \<Longrightarrow> snd (update_task_state fault now tid ns res err d) = d"
  using update_task_state_cases [of fault now tid ns res err d] by auto

subsection \<open>The single open event\<close>

text \<open>
  Claim C1. In every database that \<^verbatim>\<open>create_task\<close> and \<^verbatim>\<open>update_task_state\<close> can
  produce from the empty one, each task has exactly one event with \<^verbatim>\<open>exited_at\<close> null,
  and the \<^verbatim>\<open>state_name\<close> of that event is the \<^verbatim>\<open>current_state\<close> of the task.
\<close>

theorem single_open_event:
  assumes "reachable d" and "t \<in> set (tasks d)"
  shows "\<exists>r. open_events d (t_task_id t) = [r] \<and> s_state_name r = t_current_state t"
proof -
  from assms have "map s_state_name (open_events d (t_task_id t)) = [t_current_state t]"
    using reachable_inv [of d] by (simp add: store_inv_def)
  then show ?thesis by (cases "open_events d (t_task_id t)") auto
qed

theorem single_open_event_witness:
  "reachable ex_db2 \<and> (\<exists>t \<in> set (tasks ex_db2). t_task_id t = ''t1'' \<and> t_current_state t = ''S0'' \<and>
     (\<exists>r. open_events ex_db2 (t_task_id t) = [r] \<and> s_state_name r = t_current_state t))"
proof -
  let ?t = "(new_task_row 100 ''t1'' ''w1'' ''S0'' ex_input)\<lparr>t_current_state := ''S0'', t_updated_at := 110, t_is_complete := False, t_has_error := False\<rparr>"
  have m: "?t \<in> set (tasks ex_db2)" by (simp add: ex_db2_rows)
  have "\<exists>r. open_events ex_db2 (t_task_id ?t) = [r] \<and> s_state_name r = t_current_state ?t"
    by (rule single_open_event [OF ex_db2_reachable m])
  with m show ?thesis
    using ex_db2_reachable by (intro conjI bexI [of _ ?t]) (simp_all add: new_task_row_def)
qed

subsection \<open>Durations of sealed events\<close>

text \<open>
  Claim C7. Every event that a transition has sealed carries as \<^verbatim>\<open>duration_seconds\<close> the
  difference of its \<^verbatim>\<open>exited_at\<close> and its \<^verbatim>\<open>entered_at\<close> in whole seconds, which is not
  negative when \<^verbatim>\<open>exited_at\<close> is not earlier than \<^verbatim>\<open>entered_at\<close>.
\<close>

theorem sealed_duration:
  assumes "reachable d" and "r \<in> set (task_states d)" and "s_exited_at r = Some e"
  shows "\<exists>n. s_duration_seconds r = Some n \<and> n = e - s_entered_at r \<and> (s_entered_at r \<le> e \<longrightarrow> 0 \<le> n)"
  using reachable_inv [OF assms(1)] assms(2,3) by (simp add: store_inv_def)

theorem sealed_duration_witness:
  "reachable ex_db2 \<and> seal_event 110 (Some ''r1'') (initial_state_row 1 100 ''t1'' ''S0'') \<in> set (task_states ex_db2)
   \<and> s_exited_at (seal_event 110 (Some ''r1'') (initial_state_row 1 100 ''t1'' ''S0'')) = Some 110
   \<and> s_duration_seconds (seal_event 110 (Some ''r1'') (initial_state_row 1 100 ''t1'' ''S0'')) = Some 10"
proof -
  let ?r = "seal_event 110 (Some ''r1'') (initial_state_row 1 100 ''t1'' ''S0'')"
  have m: "?r \<in> set (task_states ex_db2)" by (simp add: ex_db2_rows)
  have x: "s_exited_at ?r = Some 110" by (simp add: seal_event_def)
  from sealed_duration [OF ex_db2_reachable m x] m x show ?thesis
    using ex_db2_reachable by (simp add: seal_event_def initial_state_row_def)
qed

subsection \<open>A transition of an unknown task\<close>

text \<open>
  Claim C5. For a \<^verbatim>\<open>task_id\<close> that is not in \<^verbatim>\<open>tasks\<close>, \<^verbatim>\<open>update_task_state\<close> returns
  \<^verbatim>\<open>False\<close> and the database after the call is the database before it, whatever the storage
  layer does.
\<close>

theorem update_unknown_task:
  assumes "tid \<notin> t_task_id ` set (tasks d)"
  shows "update_task_state None now tid new_state result error d = (Inr False, d) \<and>
         snd (update_task_state fault now tid new_state result error d) = d"
proof -
  from assms have "find_task d tid = None" by (simp add: find_task_None)
  then show ?thesis by (simp add: update_task_state_def)
qed

theorem update_unknown_task_witness:
  "''t9'' \<notin> t_task_id ` set (tasks ex_db1) \<and>
   update_task_state None 130 ''t9'' ''S1'' (Some ''r'') None ex_db1 = (Inr False, ex_db1)"
proof -
  have a: "''t9'' \<notin> t_task_id ` set (tasks ex_db1)"
    by (simp add: ex_db1_rows new_task_row_def)
  from update_unknown_task [OF a, of 130 "''S1''" "Some ''r''" None None] a show ?thesis by simp
qed

subsection \<open>Results keyed by the state that is left\<close>

text \<open>
  Claim C3, as amended. A transition with a non-empty result out of the state \<open>S\<close> of an
  existing task, called without an error argument or with one whose message can be bound,
  succeeds, and the results mapping after it is the mapping before it with \<open>S\<close> bound to
  the result: every other key keeps its binding. The value that \<open>S\<close> itself had before the
  call is overwritten, which is why the claim as stated, that every key present before keeps
  its prior value, fails: the counterexample leaves \<open>S0\<close> a second time, with another
  result.
\<close>

theorem result_keyed_by_exited_state:
  assumes "find_task d tid = Some row" and "find_payload d tid = Some p" and "result \<noteq> []"
    and "bind_text (message_arg error) = Inr msg"
  shows "fst (update_task_state None now tid new_state (Some result) error d) = Inr True \<and>
         map_of (results_of (snd (update_task_state None now tid new_state (Some result) error d)) tid)
           = (map_of (d_results p))(t_current_state row \<mapsto> PStr result)"
  using assms(3)
  by (simp add: update_task_state_ok [OF assms(1,2,4)] results_of_updated [OF assms(2)]
      merge_result_def update_conv')

theorem result_keyed_by_exited_state_witness:
  "find_task ex_db1 ''t1'' = Some (new_task_row 100 ''t1'' ''w1'' ''S0'' ex_input) \<and>
   find_payload ex_db1 ''t1'' = Some (new_payload_row ''t1'' ex_input) \<and>
   ''r1'' \<noteq> [] \<and>
   bind_text (message_arg None) = Inr PNone \<and>
   fst (update_task_state None 110 ''t1'' ''S1'' (Some ''r1'') None ex_db1) = Inr True \<and>
   map_of (results_of (snd (update_task_state None 110 ''t1'' ''S1'' (Some ''r1'') None ex_db1)) ''t1'')
     = [''S0'' \<mapsto> PStr ''r1'']"
proof -
  have n: "''r1'' \<noteq> []" by simp
  from result_keyed_by_exited_state
    [OF ex_db1_find(1) ex_db1_find(2) n bind_no_error, of 110 "''S1''"]
  show ?thesis
    by (simp add: ex_db1_find bind_no_error new_task_row_def new_payload_row_def ex_input_def
        opt_default_def)
qed

theorem result_prior_key_counterexample:
  "map (\<lambda>t. (t_task_id t, t_current_state t)) (tasks ex_db2) = [(''t1'', ''S0'')] \<and>
   map_of (results_of ex_db2 ''t1'') ''S0'' = Some (PStr ''r1'') \<and>
   fst (update_task_state None 125 ''t1'' ''S1'' (Some ''r2'') None ex_db2) = Inr True \<and>
   map_of (results_of ex_db3 ''t1'') ''S0'' = Some (PStr ''r2'')"
  by (simp add: ex_db3_def update_task_state_ok [OF ex_db2_find bind_no_error]
      results_of_updated [OF ex_db2_find(2)] ex_results ex_db2_rows new_task_row_def
      merge_result_def)

subsection \<open>The derived flags\<close>

text \<open>
  Claim C4, as amended. After a successful transition the task's \<^verbatim>\<open>is_complete\<close> holds if
  and only if the new state is the task's completion state, and its \<^verbatim>\<open>has_error\<close> holds if
  and only if the error argument is a non-empty dictionary, whatever the flags were before.
  The claim as stated asks for \<^verbatim>\<open>has_error\<close> whenever an error argument is present; the
  source tests the truth value of the argument, so the empty dictionary sets no flag, as
  the counterexample shows.
\<close>

theorem derived_flags:
  assumes "update_task_state fault now tid new_state result error d = (Inr True, d')"
  shows "\<exists>row row'. find_task d tid = Some row \<and> find_task d' tid = Some row' \<and>
           t_completion_state row' = t_completion_state row \<and>
           t_is_complete row' = (new_state = t_completion_state row) \<and>
           t_has_error row' = (error \<noteq> None \<and> error \<noteq> Some [])"
  using assms
proof (rule update_task_state_True)
  fix row p msg
  assume row: "find_task d tid = Some row"
    and d': "d' = updated_db now tid new_state result error msg (t_current_state row)
           (new_state = t_completion_state row) (truthy_dict error)
           (merge_result (t_current_state row) result (d_results p)) d"
  have "truthy_dict error = (error \<noteq> None \<and> error \<noteq> Some [])"
    by (cases error) (simp_all add: truthy_dict_def)
  with row show ?thesis
    by (simp add: d' find_task_updated [OF row])
qed

theorem derived_flags_witness:
  "update_task_state None 110 ''t1'' ''done'' None (Some [(''message'', PStr ''boom'')]) ex_db1
     = (Inr True, snd (update_task_state None 110 ''t1'' ''done'' None (Some [(''message'', PStr ''boom'')]) ex_db1)) \<and>
   map (\<lambda>t. (t_is_complete t, t_has_error t))
     (tasks (snd (update_task_state None 110 ''t1'' ''done'' None (Some [(''message'', PStr ''boom'')]) ex_db1)))
     = [(True, True)]"
proof -
  let ?u = "update_task_state None 110 ''t1'' ''done'' None (Some [(''message'', PStr ''boom'')]) ex_db1"
  have ok: "?u = (Inr True, snd ?u)"
    by (simp add: update_task_state_ok [OF ex_db1_find bind_boom])
  from derived_flags [OF ok] obtain row row' where
    "find_task ex_db1 ''t1'' = Some row" "find_task (snd ?u) ''t1'' = Some row'"
    "t_is_complete row' = (''done'' = t_completion_state row)" by blast
  with ok show ?thesis
    by (simp add: update_task_state_ok [OF ex_db1_find bind_boom] updated_db_def ex_db1_rows
        set_task_state_def new_task_row_def ex_input_def opt_default_def truthy_dict_def)
qed

theorem has_error_presence_counterexample:
  "fst (update_task_state None 110 ''t1'' ''S1'' None (Some []) ex_db1) = Inr True \<and>
   (Some [] :: (string \<times> pyval) list option) \<noteq> None \<and>
   map t_has_error (tasks (snd (update_task_state None 110 ''t1'' ''S1'' None (Some []) ex_db1)))
     = [False]"
  by (simp add: update_task_state_ok [OF ex_db1_find bind_empty_error] updated_db_def ex_db1_rows
      set_task_state_def new_task_row_def truthy_dict_def)

subsection \<open>An empty result\<close>

text \<open>
  Claim C10. A transition of an existing task called with the empty string as result, and
  without an error argument or with one whose message can be bound, succeeds; the event it
  seals gets the empty string as its \<^verbatim>\<open>result\<close>; the results mapping of the payload after
  the call is the mapping before the call.
\<close>

theorem empty_result_not_merged:
  assumes "reachable d" and "find_task d tid = Some row"
    and "bind_text (message_arg error) = Inr msg"
  shows "\<exists>r. open_events d tid = [r] \<and>
           fst (update_task_state None now tid new_state (Some []) error d) = Inr True \<and>
           seal_event now (Some []) r
             \<in> set (task_states (snd (update_task_state None now tid new_state (Some []) error d))) \<and>
           s_result (seal_event now (Some []) r) = Some [] \<and>
           results_of (snd (update_task_state None now tid new_state (Some []) error d)) tid
             = results_of d tid"
proof -
  from reachable_payload [OF assms(1,2)] obtain p where p: "find_payload d tid = Some p" ..
  from reachable_open [OF assms(1,2)] obtain r where r: "open_events d tid = [r]"
    and n: "s_state_name r = t_current_state row" by blast
  have "results_of d tid = d_results p" using p by (simp add: results_of_def)
  then show ?thesis
    using r sealed_in_updated [OF r n]
    by (simp add: update_task_state_ok [OF assms(2) p assms(3)] results_of_updated [OF p]
        merge_result_def seal_event_def)
qed

theorem empty_result_not_merged_witness:
  "reachable ex_db2 \<and>
   find_task ex_db2 ''t1'' \<noteq> None \<and>
   bind_text (message_arg None) = Inr PNone \<and>
   fst (update_task_state None 125 ''t1'' ''S1'' (Some []) None ex_db2) = Inr True \<and>
   results_of (snd (update_task_state None 125 ''t1'' ''S1'' (Some []) None ex_db2)) ''t1''
     = [(''S0'', PStr ''r1'')]"
  using empty_result_not_merged [OF ex_db2_reachable ex_db2_find(1) bind_no_error, of 125 "''S1''"]
    ex_db2_reachable
  by (auto simp: ex_db2_find ex_results bind_no_error)

subsection \<open>A transition to the current state\<close>

text \<open>
  Claim C8. A transition of an existing task to the state it is in, called without an error
  argument or with one whose message can be bound, succeeds. The history of the task after
  it is the history before it, with the one open event sealed at \<^verbatim>\<open>now\<close>, followed by a
  new event: one event more. The new event has the same state name, holds the bound message
  as its \<^verbatim>\<open>error_message\<close>, and is the only open event of the task.
\<close>

theorem self_loop:
  assumes "reachable d" and "find_task d tid = Some row"
    and "bind_text (message_arg error) = Inr msg"
  shows "\<exists>r. open_events d tid = [r] \<and>
           fst (update_task_state None now tid (t_current_state row) result error d) = Inr True \<and>
           history (snd (update_task_state None now tid (t_current_state row) result error d)) tid
             = map (\<lambda>x. if x = r then seal_event now result r else x) (history d tid)
                 @ [entered_row (Suc (state_seq d)) now tid (t_current_state row) error msg] \<and>
           length (history (snd (update_task_state None now tid (t_current_state row) result error d)) tid)
             = Suc (length (history d tid)) \<and>
           s_exited_at (seal_event now result r) = Some now \<and>
           open_events (snd (update_task_state None now tid (t_current_state row) result error d)) tid
             = [entered_row (Suc (state_seq d)) now tid (t_current_state row) error msg] \<and>
           s_state_name (entered_row (Suc (state_seq d)) now tid (t_current_state row) error msg)
             = t_current_state row \<and>
           s_error_message (entered_row (Suc (state_seq d)) now tid (t_current_state row) error msg)
             = msg"
proof -
  let ?cs = "t_current_state row"
  from reachable_payload [OF assms(1,2)] obtain p where p: "find_payload d tid = Some p" ..
  from reachable_open [OF assms(1,2)] obtain r where r: "open_events d tid = [r]"
    and n: "s_state_name r = ?cs" by blast
  have names: "map s_state_name (open_events d tid) = [?cs]" using r n by simp
  have m: "map (seal_open now result tid ?cs) (history d tid)
      = map (\<lambda>x. if x = r then seal_event now result r else x) (history d tid)"
    by (rule map_cong [OF refl]) (simp add: history_def seal_open_the_open [OF r n])
  show ?thesis
    using r
    by (simp add: update_task_state_ok [OF assms(2) p assms(3)] history_updated m
        open_events_updated_same [OF names] seal_event_def entered_row_def)
qed

theorem self_loop_witness:
  "reachable ex_db1 \<and>
   find_task ex_db1 ''t1'' = Some (new_task_row 100 ''t1'' ''w1'' ''S0'' ex_input) \<and>
   bind_text (message_arg None) = Inr PNone \<and>
   fst (update_task_state None 110 ''t1'' ''S0'' (Some ''r1'') None ex_db1) = Inr True \<and>
   history ex_db1 ''t1'' = [initial_state_row 1 100 ''t1'' ''S0''] \<and>
   history (snd (update_task_state None 110 ''t1'' ''S0'' (Some ''r1'') None ex_db1)) ''t1''
     = [seal_event 110 (Some ''r1'') (initial_state_row 1 100 ''t1'' ''S0''),
        entered_row 2 110 ''t1'' ''S0'' None PNone]"
proof -
  have h: "history ex_db1 ''t1'' = [initial_state_row 1 100 ''t1'' ''S0'']"
    and o: "open_events ex_db1 ''t1'' = [initial_state_row 1 100 ''t1'' ''S0'']"
    by (simp_all add: history_def open_events_def ex_db1_rows initial_state_row_def)
  have c: "t_current_state (new_task_row 100 ''t1'' ''w1'' ''S0'' ex_input) = ''S0''"
    by (simp add: new_task_row_def)
  from self_loop [OF ex_db1_reachable ex_db1_find(1) bind_no_error, of 110 "Some ''r1''"]
  show ?thesis
    using ex_db1_reachable
    by (simp add: ex_db1_find bind_no_error h o c ex_db1_rows numeral_2_eq_2)
qed

subsection \<open>Lookup of an absent task\<close>

text \<open>
  Claim C6. \<^verbatim>\<open>get_task\<close> on a \<^verbatim>\<open>task_id\<close> that is not in \<^verbatim>\<open>tasks\<close> returns the empty
  dictionary. On an existing task it returns a dictionary that holds the task's columns,
  among them \<^verbatim>\<open>task_id\<close>, whatever the payload is, so the two results differ; the witness
  is a task whose payload fields are all empty.
\<close>

theorem get_task_absent_distinct:
  assumes "reachable d" and "tid \<notin> t_task_id ` set (tasks d)" and "find_task d tid' = Some t"
  shows "get_task None tid d = Inr [] \<and>
         (\<exists>row. get_task None tid' d = Inr row \<and> map_of row ''task_id'' = Some (PStr tid')) \<and>
         get_task None tid' d \<noteq> get_task None tid d"
proof -
  from assms(2) have a: "find_task d tid = None" by (simp add: find_task_None)
  from reachable_payload [OF assms(1,3)] obtain p where p: "find_payload d tid' = Some p" ..
  from assms(3) have "t_task_id t = tid'" by (simp add: find_task_Some)
  then show ?thesis
    by (simp add: get_task_def a assms(3) p task_columns_def)
qed

theorem get_task_absent_distinct_witness:
  "reachable ex_db1 \<and> ''t9'' \<notin> t_task_id ` set (tasks ex_db1) \<and>
   find_task ex_db1 ''t1'' = Some (new_task_row 100 ''t1'' ''w1'' ''S0'' ex_input) \<and>
   payload_columns (new_payload_row ''t1'' ex_input)
     = [(''prompt'', PStr []), (''context'', PStr []), (''parameters'', PDict []),
        (''results'', PDict []), (''next_states'', PList []), (''error_details'', PDict [])] \<and>
   get_task None ''t9'' ex_db1 = Inr [] \<and>
   get_task None ''t1'' ex_db1 \<noteq> get_task None ''t9'' ex_db1"
proof -
  have a: "''t9'' \<notin> t_task_id ` set (tasks ex_db1)"
    by (simp add: ex_db1_rows new_task_row_def)
  have c: "payload_columns (new_payload_row ''t1'' ex_input)
     = [(''prompt'', PStr []), (''context'', PStr []), (''parameters'', PDict []),
        (''results'', PDict []), (''next_states'', PList []), (''error_details'', PDict [])]"
    by (simp add: payload_columns_def new_payload_row_def ex_input_def opt_default_def)
  from get_task_absent_distinct [OF ex_db1_reachable a ex_db1_find(1)] a c ex_db1_reachable
  show ?thesis by (auto simp: ex_db1_find)
qed

subsection \<open>The listing\<close>

text \<open>
  Claim C9, as amended. Take the tasks of the database that match every filter given as a
  non-empty string (a filter that is absent or the empty string is not applied), arranged
  by \<^verbatim>\<open>updated_at\<close> descending. For a \<open>limit\<close> from \<open>0\<close> to \<open>2\<^sup>6\<^sup>3 - 1\<close>, \<^verbatim>\<open>list_tasks\<close>
  returns the summary columns of the first \<open>limit\<close> tasks of that arrangement, so never
  more than \<open>limit\<close> entries; for a negative \<open>limit\<close> from \<open>- 2\<^sup>6\<^sup>3\<close> it returns all of them;
  for a \<open>limit\<close> outside the signed 64-bit range it returns the empty list. Each entry
  has the eight summary columns and no other key. The claim as stated fails on two counts
  at once in the counterexample: the filter \<^verbatim>\<open>workflow_id = ''\<close> and the limit \<open>-1\<close> return
  both tasks, of workflows \<open>w1\<close> and \<open>w2\<close>.
\<close>

theorem list_tasks_summary:
  "\<exists>ms sel.
     mset ms = mset (filter
        (\<lambda>t. (workflow_id \<noteq> None \<and> workflow_id \<noteq> Some [] \<longrightarrow> Some (t_workflow_id t) = workflow_id) \<and>
             (state \<noteq> None \<and> state \<noteq> Some [] \<longrightarrow> Some (t_current_state t) = state))
        (tasks d)) \<and>
     sorted_wrt (\<lambda>a b. t_updated_at b \<le> t_updated_at a) ms \<and>
     sel = (if \<not> int64 limit then [] else if limit < 0 then ms else take (nat limit) ms) \<and>
     list_tasks None workflow_id state limit d = Inr (map summary_columns sel) \<and>
     (0 \<le> limit \<longrightarrow> int (length sel) \<le> limit) \<and>
     (\<forall>t \<in> set sel. map fst (summary_columns t) = summary_keys)"
proof -
  let ?P = "\<lambda>t. (workflow_id \<noteq> None \<and> workflow_id \<noteq> Some [] \<longrightarrow> Some (t_workflow_id t) = workflow_id) \<and>
             (state \<noteq> None \<and> state \<noteq> Some [] \<longrightarrow> Some (t_current_state t) = state)"
  let ?ms = "sort_key (\<lambda>t. - t_updated_at t) (filter ?P (tasks d))"
  let ?sel = "if \<not> int64 limit then [] else if limit < 0 then ?ms else take (nat limit) ?ms"
  have eq: "matches workflow_id state = ?P"
    by (rule ext) (simp only: matches_iff)
  have 1: "mset ?ms = mset (filter ?P (tasks d))" by simp
  have 2: "sorted_wrt (\<lambda>a b. t_updated_at b \<le> t_updated_at a) ?ms" by (rule sorted_desc)
  have 4: "list_tasks None workflow_id state limit d = Inr (map summary_columns ?sel)"
    by (simp add: list_tasks_def selected_tasks_def sql_limit_def eq)
  have 5: "0 \<le> limit \<longrightarrow> int (length ?sel) \<le> limit" by (auto simp: min_def)
  have 6: "\<forall>t \<in> set ?sel. map fst (summary_columns t) = summary_keys"
    by (simp add: summary_columns_def summary_keys_def)
  from 1 2 4 5 6 show ?thesis by blast
qed

theorem list_tasks_summary_witness:
  "list_tasks None (Some ''w2'') (Some ''S0'') 1 ex_db_pair
     = Inr [summary_columns (new_task_row 105 ''t2'' ''w2'' ''S0'' ex_input2)] \<and>
   list_tasks None None (Some ''S0'') 1 ex_db_pair
     = Inr [summary_columns (new_task_row 105 ''t2'' ''w2'' ''S0'' ex_input2)] \<and>
   list_tasks None None (Some ''S0'') (2 ^ 63) ex_db_pair = Inr []"
  using list_tasks_summary [of "Some ''w2''" "Some ''S0''" ex_db_pair 1]
  by (simp add: list_tasks_def selected_tasks_def sql_limit_def ex_db_pair_tasks matches_def
      truthy_str_def new_task_row_def int64_def)

theorem list_tasks_filter_limit_counterexample:
  "map t_workflow_id (tasks ex_db_pair) = [''w1'', ''w2''] \<and>
   list_tasks None (Some []) None (- 1) ex_db_pair
     = Inr [summary_columns (new_task_row 105 ''t2'' ''w2'' ''S0'' ex_input2),
            summary_columns (new_task_row 100 ''t1'' ''w1'' ''S0'' ex_input)]"
  by (simp add: list_tasks_def selected_tasks_def sql_limit_def ex_db_pair_tasks matches_def
      truthy_str_def new_task_row_def int64_def)

subsection \<open>Storage faults at the operation boundary\<close>

text \<open>
  Claim C2, as amended. A fault that the storage layer raises at a statement of
  \<^verbatim>\<open>get_task\<close> or \<^verbatim>\<open>list_tasks\<close> is caught and the operation returns the empty dictionary
  or the empty list. A fault raised at a statement of \<^verbatim>\<open>create_task\<close> or
  \<^verbatim>\<open>update_task_state\<close>, or at their commit, is caught and the transaction is rolled back:
  the database is the one before the call, and the operation does not return its result but
  raises the fault again. This holds of every statement that the run reaches, that is of
  every call from \<open>1\<close> up to the number of calls of the run; a call number beyond it faults
  nothing and the run ends as the run without fault does. Whenever one of the two writing
  operations raises, whatever the exception, the database is the one before the call. The
  claim as stated, that no operation lets a fault reach its caller, fails for the two
  writing operations, as the counterexample shows.
\<close>

theorem fault_policy:
  "(0 < kg \<and> kg < get_task_calls tid d \<longrightarrow> get_task (Some kg) tid d = Inr []) \<and>
   (0 < kl \<and> kl < list_tasks_calls \<longrightarrow> list_tasks (Some kl) workflow_id state limit d = Inr []) \<and>
   (0 < kc \<and> kc < create_task_calls inp d
      \<longrightarrow> create_task (Some kc) now inp d = (Inl StorageFault, d)) \<and>
   (0 < ku \<and> ku < update_task_state_calls tid error d
      \<longrightarrow> update_task_state (Some ku) now tid new_state result error d = (Inl StorageFault, d)) \<and>
   (get_task_calls tid d \<le> j \<longrightarrow> get_task (Some j) tid d = get_task None tid d) \<and>
   (list_tasks_calls \<le> j
      \<longrightarrow> list_tasks (Some j) workflow_id state limit d = list_tasks None workflow_id state limit d) \<and>
   (create_task_calls inp d \<le> j
      \<longrightarrow> create_task (Some j) now inp d = create_task None now inp d) \<and>
   (update_task_state_calls tid error d \<le> j
      \<longrightarrow> update_task_state (Some j) now tid new_state result error d
            = update_task_state None now tid new_state result error d) \<and>
   (\<forall>e. fst (create_task fault now inp d) = Inl e
      \<longrightarrow> snd (create_task fault now inp d) = d) \<and>
   (\<forall>e. fst (update_task_state fault now tid new_state result error d) = Inl e
      \<longrightarrow> snd (update_task_state fault now tid new_state result error d) = d)"
proof (intro conjI allI impI)
  assume "0 < kg \<and> kg < get_task_calls tid d"
  then show "get_task (Some kg) tid d = Inr []" by (simp add: get_task_reached)
next
  assume "0 < kl \<and> kl < list_tasks_calls"
  then show "list_tasks (Some kl) workflow_id state limit d = Inr []"
    by (simp add: list_tasks_reached)
next
  assume "0 < kc \<and> kc < create_task_calls inp d"
  then show "create_task (Some kc) now inp d = (Inl StorageFault, d)"
    by (simp add: create_task_reached)
next
  assume "0 < ku \<and> ku < update_task_state_calls tid error d"
  then show "update_task_state (Some ku) now tid new_state result error d = (Inl StorageFault, d)"
    by (simp add: update_task_state_reached)
next
  assume "get_task_calls tid d \<le> j"
  then show "get_task (Some j) tid d = get_task None tid d" by (rule get_task_unreached)
next
  assume "list_tasks_calls \<le> j"
  then show "list_tasks (Some j) workflow_id state limit d
      = list_tasks None workflow_id state limit d" by (rule list_tasks_unreached)
next
  assume "create_task_calls inp d \<le> j"
  then show "create_task (Some j) now inp d = create_task None now inp d"
    by (rule create_task_unreached)
next
  assume "update_task_state_calls tid error d \<le> j"
  then show "update_task_state (Some j) now tid new_state result error d
      = update_task_state None now tid new_state result error d"
    by (rule update_task_state_unreached)
next
  fix e assume "fst (create_task fault now inp d) = Inl e"
  then show "snd (create_task fault now inp d) = d" by (rule create_task_rollback)
next
  fix e assume "fst (update_task_state fault now tid new_state result error d) = Inl e"
  then show "snd (update_task_state fault now tid new_state result error d) = d"
    by (rule update_task_state_rollback)
qed

theorem fault_policy_witness:
  "get_task_calls ''t1'' ex_db1 = 3 \<and>
   get_task (Some 2) ''t1'' ex_db1 = Inr [] \<and>
   list_tasks (Some 1) None None 10 ex_db1 = Inr [] \<and>
   create_task_calls ex_input2 ex_db1 = 5 \<and>
   create_task (Some 4) 105 ex_input2 ex_db1 = (Inl StorageFault, ex_db1) \<and>
   update_task_state_calls ''t1'' None ex_db1 = 8 \<and>
   update_task_state (Some 7) 110 ''t1'' ''S1'' (Some ''r1'') None ex_db1
     = (Inl StorageFault, ex_db1) \<and>
   get_task (Some 9) ''t1'' ex_db1 = get_task None ''t1'' ex_db1 \<and>
   create_task (Some 9) 105 ex_input2 ex_db1 = create_task None 105 ex_input2 ex_db1 \<and>
   update_task_state (Some 9) 110 ''t1'' ''S1'' (Some ''r1'') None ex_db1
     = update_task_state None 110 ''t1'' ''S1'' (Some ''r1'') None ex_db1 \<and>
   fst (update_task_state (Some 4) 110 ''t1'' ''S1'' (Some ''r1'') None ex_db1) = Inl StorageFault \<and>
   snd (update_task_state (Some 4) 110 ''t1'' ''S1'' (Some ''r1'') None ex_db1) = ex_db1"
proof -
  have g: "get_task_calls ''t1'' ex_db1 = 3"
    by (simp add: get_task_calls_def ex_db1_find)
  have c: "create_task_calls ex_input2 ex_db1 = 5"
    by (simp add: create_task_calls_def ex_input2_def ex_input_def ex_db1_rows new_task_row_def
        new_payload_row_def opt_default_def int64_def)
  have u: "update_task_state_calls ''t1'' None ex_db1 = 8"
    by (simp add: update_task_state_calls_def ex_db1_find bind_no_error truthy_dict_def)
  have f: "fst (update_task_state (Some 4) 110 ''t1'' ''S1'' (Some ''r1'') None ex_db1)
      = Inl StorageFault"
    by (simp add: update_task_state_def Let_def ex_db1_find bind_no_error truthy_dict_def)
  from fault_policy [where kg = 2 and kl = 1 and kc = 4 and ku = 7 and j = 9
      and tid = "''t1''" and d = ex_db1 and inp = ex_input2 and error = None
      and fault = "Some 4"]
  show ?thesis
    using g c u f by (simp add: list_tasks_calls_def)
qed

theorem fault_raised_counterexample:
  "update_task_state (Some 1) 110 ''t1'' ''S1'' None None ex_db1 = (Inl StorageFault, ex_db1) \<and>
   create_task (Some 1) 105 ex_input2 ex_db1 = (Inl StorageFault, ex_db1)"
  by (simp add: update_task_state_def create_task_def)

end
